theory Spec2Isabelle
  imports Main "HOL-Library.Word"
begin

section \<open>The mDNS client of the daemon (daemon/mdns\_client.cpp)\<close>

text \<open>
  The client is modelled with the Avahi code compiled in (the macro \<open>_USE_AVAHI_\<close>
  defined). The object's fields become a record; every call into Avahi, into the RTSP
  client, into the host daemon and every operation on a future that has an effect
  is appended to a trace, so that the order of the actions of one member function
  can be read off the final state. The development covers \<open>resolve_callback\<close>,
  \<open>init\<close>, \<open>process_results\<close> and \<open>terminate\<close>; the browser and client
  callbacks are not part of it.
\<close>

subsection \<open>Data\<close>

type_synonym handle = nat

datatype severity = Debug | Info | Error | Fatal

text \<open>
  The values captured by the task's closure in \<open>resolve_callback\<close>:
  \<open>name_\<close>, \<open>domain_\<close>, \<open>addr_\<close> and \<open>port_\<close> (the port as decimal text).
\<close>

datatype task = Task (t_name: string) (t_domain: string) (t_addr: string) (t_port: string)

text \<open>
  An element of \<open>sources_res_\<close>, a \<open>std::future<void>\<close> made by \<open>std::async\<close>
  with \<open>std::launch::async\<close>: without shared state (\<open>Invalid\<close>), with a task that
  has not finished (\<open>Pending\<close>), or with a task that has finished and whose result
  has not been taken (\<open>Ready\<close>).
\<close>

datatype future = Invalid | Pending task | Ready task

text \<open>
  The actions recorded in the trace. \<open>'d\<close> is the description an RTSP DESCRIBE
  returns. The text of a log line is not modelled, only its severity.
\<close>

datatype 'd event =
    Log severity
  | SetRunning bool
  | PollFree handle
  | ClientFree handle
  | PollStart "handle option"
  | PollStop "handle option"
  | ResolverFree handle
  | Describe string string string
  | OnNewSource string string 'd
  | FutureWait task
  | FutureGet task

text \<open>
  The fields of the object (the source writes them with a trailing underscore:
  \<open>running_\<close>, \<open>poll_\<close>, \<open>client_\<close>, \<open>sources_res_\<close>) and the trace. The
  mutex \<open>sources_res_mutex_\<close> is not a field of the model: every member function
  runs as one step.
\<close>

record 'd MDNSClient =
  running :: bool
  poll :: "handle option"
  client :: "handle option"
  sources_res :: "future list"
  trace :: "'d event list"

definition emit :: "'d event list \<Rightarrow> 'd MDNSClient \<Rightarrow> 'd MDNSClient" where
  "emit es s = s\<lparr>trace := trace s @ es\<rparr>"

subsection \<open>The describe task\<close>

text \<open>
  \<open>RTSPClient::describe\<close> is a collaborator outside this file: it is a parameter
  \<open>d\<close> of the model, from path, address and port to the pair (success, description),
  or to \<open>None\<close> when the call never returns. Exceptions are not modelled: the
  collaborator reports a failure through the flag.
\<close>

type_synonym 'd describe = "string \<Rightarrow> string \<Rightarrow> string \<Rightarrow> (bool \<times> 'd) option"

text \<open>
  The body of the closure given to \<open>std::async\<close>: the actions of one run of the
  task, \<open>None\<close> when it never finishes.
\<close>

definition async_task :: "'d describe \<Rightarrow> task \<Rightarrow> 'd event list option" where
  "async_task d t =
     (case d (''/by-name/'' @ t_name t) (t_addr t) (t_port t) of
        None \<Rightarrow> None
      | Some res \<Rightarrow>
          Some (Describe (''/by-name/'' @ t_name t) (t_addr t) (t_port t) #
                (if fst res then [OnNewSource (t_name t) (t_domain t) (snd res)] else [])))"

subsection \<open>Operations on a future\<close>

datatype future_status = ready | timeout | deferred

definition valid :: "future \<Rightarrow> bool" where
  "valid f = (f \<noteq> Invalid)"

text \<open>
  \<open>wait_for\<close> with a duration of zero: it only looks. The callers test \<open>valid\<close>
  first; on a future without shared state C++ leaves the behaviour undefined.
\<close>

fun wait_for_zero :: "future \<Rightarrow> future_status" where
  "wait_for_zero (Ready t) = ready"
| "wait_for_zero (Pending t) = timeout"
| "wait_for_zero Invalid = timeout"

text \<open>
  \<open>wait\<close> returns once the task has finished: on a pending future the rest of the
  task runs before it returns, and it never returns when the task never finishes. The
  task runs on a thread of its own, so its actions may come anywhere between its
  dispatch and the return of \<open>wait\<close>; the model places them right before that return.
  \<open>get\<close> waits in the same way, then takes the result and leaves the future
  without shared state. On a future without shared state C++ leaves both undefined;
  the model gives \<open>None\<close> there, and no caller gets there.
\<close>

fun future_wait ::
  "'d describe \<Rightarrow> future \<Rightarrow> 'd event list \<Rightarrow> (future \<times> 'd event list) option" where
  "future_wait d (Ready t) tr = Some (Ready t, tr @ [FutureWait t])"
| "future_wait d (Pending t) tr =
     (case async_task d t of
        None \<Rightarrow> None
      | Some es \<Rightarrow> Some (Ready t, tr @ es @ [FutureWait t]))"
| "future_wait d Invalid tr = None"

fun future_get ::
  "'d describe \<Rightarrow> future \<Rightarrow> 'd event list \<Rightarrow> (future \<times> 'd event list) option" where
  "future_get d (Ready t) tr = Some (Invalid, tr @ [FutureGet t])"
| "future_get d (Pending t) tr =
     (case async_task d t of
        None \<Rightarrow> None
      | Some es \<Rightarrow> Some (Invalid, tr @ es @ [FutureGet t]))"
| "future_get d Invalid tr = None"

subsection \<open>std::list::remove\_if with a predicate that has effects\<close>

text \<open>
  The predicate is called once on each element, front to back; it may change the
  element and the trace, and it may block for ever (\<open>None\<close>). An element is erased
  when the predicate returns true.
\<close>

fun remove_if ::
  "('a \<Rightarrow> 'st \<Rightarrow> (bool \<times> 'a \<times> 'st) option) \<Rightarrow> 'a list \<Rightarrow> 'st \<Rightarrow> ('a list \<times> 'st) option" where
  "remove_if pred [] st = Some ([], st)"
| "remove_if pred (x # xs) st =
     (case pred x st of
        None \<Rightarrow> None
      | Some (b, x', st') \<Rightarrow>
          (case remove_if pred xs st' of
             None \<Rightarrow> None
           | Some (ys, st'') \<Rightarrow> Some (if b then ys else x' # ys, st'')))"

subsection \<open>init\<close>

text \<open>
  Modelled from the spec: the types of \<open>poll_\<close> and \<open>client_\<close>, declared in the
  header \<open>mdns_client.hpp\<close>, which is not among the sources. The spec describes them
  as "custom-deleter smart handles (poll object, client object, browser object)", each
  owning its resource: \<open>reset\<close> stores the new pointer and frees the one held
  before, if any; \<open>get\<close> reads the pointer and frees nothing.
\<close>

definition poll_reset :: "handle option \<Rightarrow> 'd MDNSClient \<Rightarrow> 'd MDNSClient" where
  "poll_reset p s =
     emit (case poll s of None \<Rightarrow> [] | Some h \<Rightarrow> [PollFree h]) (s\<lparr>poll := p\<rparr>)"

definition client_reset :: "handle option \<Rightarrow> 'd MDNSClient \<Rightarrow> 'd MDNSClient" where
  "client_reset c s =
     emit (case client s of None \<Rightarrow> [] | Some h \<Rightarrow> [ClientFree h]) (s\<lparr>client := c\<rparr>)"

text \<open>
  \<open>init poll_new client_new s\<close>: \<open>poll_new\<close> is what \<open>avahi_threaded_poll_new\<close>
  returns and \<open>client_new\<close> what \<open>avahi_client_new\<close> returns (\<open>None\<close> for a null
  pointer). The result is the returned flag and the state after the call.
\<close>

definition init ::
  "handle option \<Rightarrow> handle option \<Rightarrow> 'd MDNSClient \<Rightarrow> bool \<times> 'd MDNSClient" where
  "init poll_new client_new s =
     (if running s then (True, s)
      else
        let s1 = poll_reset poll_new s in
        if poll s1 = None then (False, emit [Log Fatal] s1)
        else
          let s2 = client_reset client_new s1 in
          if client s2 = None then (False, emit [Log Fatal] s2)
          else
            let s3 = emit [PollStart (poll s2)] s2 in
            (True, emit [SetRunning True] (s3\<lparr>running := True\<rparr>)))"

subsection \<open>process\_results\<close>

definition process_results_pred ::
  "'d describe \<Rightarrow> future \<Rightarrow> 'd event list \<Rightarrow> (bool \<times> future \<times> 'd event list) option" where
  "process_results_pred d result tr =
     (if \<not> valid result then Some (True, result, tr)
      else if wait_for_zero result = ready then
        (case future_get d result tr of
           None \<Rightarrow> None
         | Some (result', tr') \<Rightarrow> Some (True, result', tr'))
      else Some (False, result, tr))"

definition process_results :: "'d describe \<Rightarrow> 'd MDNSClient \<Rightarrow> 'd MDNSClient option" where
  "process_results d s =
     (case remove_if (process_results_pred d) (sources_res s) (trace s) of
        None \<Rightarrow> None
      | Some (l, tr) \<Rightarrow> Some (s\<lparr>sources_res := l, trace := tr\<rparr>))"

subsection \<open>terminate\<close>

definition terminate_pred ::
  "'d describe \<Rightarrow> future \<Rightarrow> 'd event list \<Rightarrow> (bool \<times> future \<times> 'd event list) option" where
  "terminate_pred d result tr =
     (if valid result then
        (case future_wait d result tr of
           None \<Rightarrow> None
         | Some (result', tr') \<Rightarrow> Some (True, result', tr'))
      else Some (True, result, tr))"

text \<open>
  The result is \<open>None\<close> when the call never returns, otherwise the returned flag and
  the state after the call.
\<close>

definition terminate :: "'d describe \<Rightarrow> 'd MDNSClient \<Rightarrow> (bool \<times> 'd MDNSClient) option" where
  "terminate d s =
     (if running s then
        let s1 = emit [SetRunning False] (s\<lparr>running := False\<rparr>);
            s2 = emit [Log Fatal] s1
        in case remove_if (terminate_pred d) (sources_res s2) (trace s2) of
             None \<Rightarrow> None
           | Some (l, tr) \<Rightarrow>
               let s3 = s2\<lparr>sources_res := l, trace := tr\<rparr>
               in Some (True, emit [PollStop (poll s3)] s3)
      else Some (True, s))"

subsection \<open>resolve\_callback\<close>

datatype AvahiResolverEvent = AVAHI_RESOLVER_FOUND | AVAHI_RESOLVER_FAILURE

text \<open>\<open>std::to_string\<close> on an unsigned value: decimal digits, no leading zero.\<close>

definition digit_char :: "nat \<Rightarrow> char" where
  "digit_char n = char_of (of_char CHR ''0'' + n)"

function to_string :: "nat \<Rightarrow> string" where
  "to_string n =
     (if n < 10 then [digit_char n] else to_string (n div 10) @ [digit_char (n mod 10)])"
  by pat_completeness auto
termination
  by (relation "measure id") auto

declare to_string.simps [simp del]

text \<open>
  Modelled from the spec: the classifier of the resolved address. The source calls
  \<open>boost::asio::ip::address_v4::from_string\<close>, library code that is not part of
  this repository, and takes the address as eligible when no error code is set. The
  spec asks for text that "parses as a well-formed address of the address family the
  system currently supports"; the comment at the call names the family ("if valid IPv4
  address"). The model is the dotted-decimal parser behind that call
  (\<open>inet_pton\<close> for \<open>AF_INET\<close>): four decimal fields separated by dots, each at most
  255, none with a leading zero, and nothing else in the string.
  \<open>inet_pton4_loop saw_digit octets tp src\<close> is its loop over the rest \<open>src\<close> of the
  string, with \<open>tp\<close> the value of the field being read.
\<close>

fun inet_pton4_loop :: "bool \<Rightarrow> nat \<Rightarrow> nat \<Rightarrow> string \<Rightarrow> bool" where
  "inet_pton4_loop saw_digit octets tp [] = (\<not> octets < 4)"
| "inet_pton4_loop saw_digit octets tp (ch # src) =
     (if (of_char CHR ''0'' :: nat) \<le> of_char ch \<and> (of_char ch :: nat) \<le> of_char CHR ''9'' then
        (let new = tp * 10 + ((of_char ch :: nat) - of_char CHR ''0'') in
         if saw_digit \<and> tp = 0 then False
         else if new > 255 then False
         else if \<not> saw_digit then
           (if octets + 1 > 4 then False else inet_pton4_loop True (octets + 1) new src)
         else inet_pton4_loop saw_digit octets new src)
      else if ch = CHR ''.'' \<and> saw_digit then
        (if octets = 4 then False else inet_pton4_loop False octets 0 src)
      else False)"

definition address_v4_from_string :: "string \<Rightarrow> bool" where
  "address_v4_from_string addr = inet_pton4_loop False 0 0 addr"

text \<open>
  \<open>resolve_callback r event name type domain addr port s\<close>: \<open>r\<close> is the resolver
  handle, \<open>addr\<close> the text that \<open>avahi_address_snprint\<close> writes for the resolved
  address, \<open>port\<close> the 16-bit port. The interface, the protocol, the host name, the
  TXT list and the flags only reach the log lines and are left out.
\<close>

definition resolve_callback ::
  "handle \<Rightarrow> AvahiResolverEvent \<Rightarrow> string \<Rightarrow> string \<Rightarrow> string \<Rightarrow> string \<Rightarrow> 16 word \<Rightarrow>
   'd MDNSClient \<Rightarrow> 'd MDNSClient" where
  "resolve_callback r event name type domain addr port s =
     (let s1 =
        (case event of
           AVAHI_RESOLVER_FAILURE \<Rightarrow> emit [Log Error] s
         | AVAHI_RESOLVER_FOUND \<Rightarrow>
             (let s2 = emit [Log Debug, Log Debug] s in
              if address_v4_from_string addr then
                s2\<lparr>sources_res :=
                     sources_res s2 @ [Pending (Task name domain addr (to_string (unat port)))]\<rparr>
              else s2))
      in emit [ResolverFree r] s1)"

subsection \<open>Vocabulary for the properties\<close>

text \<open>Readings of a trace: the tasks waited for, the tasks whose result was taken with
  \<open>get\<close>, the resolver handles freed, and the actions done by the tasks themselves.\<close>

primrec waited :: "'d event list \<Rightarrow> task list" where
  "waited [] = []"
| "waited (e # es) = (case e of FutureWait t \<Rightarrow> t # waited es | _ \<Rightarrow> waited es)"

primrec retrieved :: "'d event list \<Rightarrow> task list" where
  "retrieved [] = []"
| "retrieved (e # es) = (case e of FutureGet t \<Rightarrow> t # retrieved es | _ \<Rightarrow> retrieved es)"

primrec released :: "'d event list \<Rightarrow> handle list" where
  "released [] = []"
| "released (e # es) = (case e of ResolverFree h \<Rightarrow> h # released es | _ \<Rightarrow> released es)"

fun task_action :: "'d event \<Rightarrow> bool" where
  "task_action (Describe p a q) = True"
| "task_action (OnNewSource n dm desc) = True"
| "task_action e = False"

fun drain_event :: "'d event \<Rightarrow> bool" where
  "drain_event (FutureWait t) = True"
| "drain_event e = task_action e"

text \<open>Readings of the pending-task set: the futures whose task has not finished, the
  tasks of the futures that have finished, and the tasks of all valid futures.\<close>

fun in_flight :: "future \<Rightarrow> bool" where
  "in_flight (Pending t) = True"
| "in_flight f = False"

fun ready_tasks :: "future list \<Rightarrow> task list" where
  "ready_tasks [] = []"
| "ready_tasks (Ready t # fs) = t # ready_tasks fs"
| "ready_tasks (f # fs) = ready_tasks fs"

fun tasks_of :: "future list \<Rightarrow> task list" where
  "tasks_of [] = []"
| "tasks_of (Invalid # fs) = tasks_of fs"
| "tasks_of (Pending t # fs) = t # tasks_of fs"
| "tasks_of (Ready t # fs) = t # tasks_of fs"

text \<open>
  \<open>finishes d f\<close>: the task behind \<open>f\<close> comes to an end. \<open>run_actions d f\<close>: what
  a task that was still running does until then. \<open>drain_events d f\<close>: what the
  predicate of \<open>terminate\<close> adds to the trace for the element \<open>f\<close>.
\<close>

fun finishes :: "'d describe \<Rightarrow> future \<Rightarrow> bool" where
  "finishes d (Pending t) = (async_task d t \<noteq> None)"
| "finishes d f = True"

fun run_actions :: "'d describe \<Rightarrow> future \<Rightarrow> 'd event list" where
  "run_actions d (Pending t) = (case async_task d t of None \<Rightarrow> [] | Some es \<Rightarrow> es)"
| "run_actions d f = []"

fun drain_events :: "'d describe \<Rightarrow> future \<Rightarrow> 'd event list" where
  "drain_events d Invalid = []"
| "drain_events d (Ready t) = [FutureWait t]"
| "drain_events d (Pending t) = run_actions d (Pending t) @ [FutureWait t]"

text \<open>
  The text of an IPv4 address as \<open>avahi_address_snprint\<close> writes it: the four octets
  in decimal, separated by dots. The text of an IPv6 address always has a colon.
\<close>

definition ipv4_text :: "8 word \<Rightarrow> 8 word \<Rightarrow> 8 word \<Rightarrow> 8 word \<Rightarrow> string" where
  "ipv4_text a b c e =
     to_string (unat a) @ ''.'' @ to_string (unat b) @ ''.'' @ to_string (unat c) @ ''.'' @
     to_string (unat e)"

subsection \<open>Concrete inputs\<close>

text \<open>A describe that always succeeds, one that always fails, one that never returns.\<close>

definition describe_ok :: "unit describe" where
  "describe_ok path addr port = Some (True, ())"

definition describe_fail :: "unit describe" where
  "describe_fail path addr port = Some (False, ())"

definition describe_hangs :: "unit describe" where
  "describe_hangs path addr port = None"

definition cam1 :: task where
  "cam1 = Task ''cam1'' ''local'' ''10.0.0.1'' ''554''"

text \<open>A client before \<open>init\<close>, a running client with no task, and running clients
  with one task in flight, and with an invalid future, a task in flight and a finished
  task.\<close>

definition fresh :: "unit MDNSClient" where
  "fresh = \<lparr>running = False, poll = None, client = None, sources_res = [], trace = []\<rparr>"

definition idle :: "unit MDNSClient" where
  "idle = \<lparr>running = True, poll = Some 1, client = Some 2, sources_res = [], trace = []\<rparr>"

definition busy :: "unit MDNSClient" where
  "busy = \<lparr>running = True, poll = Some 1, client = Some 2, sources_res = [Pending cam1],
           trace = []\<rparr>"

definition mixed :: "unit MDNSClient" where
  "mixed = \<lparr>running = True, poll = Some 1, client = Some 2,
            sources_res = [Invalid, Pending cam1, Ready (Task ''cam2'' ''local'' ''10.0.0.2'' ''554'')],
            trace = []\<rparr>"

text \<open>The state \<open>mixed\<close> after \<open>terminate\<close>, when every describe succeeds.\<close>

definition mixed_done :: "unit MDNSClient" where
  "mixed_done =
     \<lparr>running = False, poll = Some 1, client = Some 2, sources_res = [],
      trace = [SetRunning False, Log Fatal,
               Describe ''/by-name/cam1'' ''10.0.0.1'' ''554'',
               OnNewSource ''cam1'' ''local'' (),
               FutureWait cam1,
               FutureWait (Task ''cam2'' ''local'' ''10.0.0.2'' ''554''),
               PollStop (Some 1)]\<rparr>"

section \<open>Auxiliary lemmas\<close>

lemma waited_append: "waited (xs @ ys) = waited xs @ waited ys"
  by (induction xs) (auto split: event.splits)

lemma retrieved_append: "retrieved (xs @ ys) = retrieved xs @ retrieved ys"
  by (induction xs) (auto split: event.splits)

lemma released_append: "released (xs @ ys) = released xs @ released ys"
  by (induction xs) (auto split: event.splits)

lemma async_task_events:
  "async_task d t = Some es \<Longrightarrow>
     waited es = [] \<and> retrieved es = [] \<and> filter task_action es = es \<and> list_all drain_event es"
  by (auto simp: async_task_def split: option.splits)

lemma terminate_pred_eq:
  "terminate_pred d f tr =
     (if finishes d f
      then Some (True, (case f of Pending t \<Rightarrow> Ready t | _ \<Rightarrow> f), tr @ drain_events d f)
      else None)"
  by (cases f) (auto simp: terminate_pred_def valid_def split: option.splits)

lemma remove_if_terminate:
  "remove_if (terminate_pred d) fs tr =
     (if list_all (finishes d) fs then Some ([], tr @ concat (map (drain_events d) fs))
      else None)"
  by (induction fs arbitrary: tr) (auto simp: terminate_pred_eq)

lemma terminate_running:
  "running s \<Longrightarrow> terminate d s =
     (if list_all (finishes d) (sources_res s)
      then Some (True, s\<lparr>running := False, sources_res := [],
                         trace := trace s @ [SetRunning False, Log Fatal] @
                                  concat (map (drain_events d) (sources_res s)) @
                                  [PollStop (poll s)]\<rparr>)
      else None)"
  by (simp add: terminate_def Let_def emit_def remove_if_terminate)

lemma waited_drain:
  "list_all (finishes d) fs \<Longrightarrow> waited (concat (map (drain_events d) fs)) = tasks_of fs"
  by (induction fs rule: tasks_of.induct)
     (auto simp: waited_append async_task_events split: option.splits)

lemma retrieved_drain: "retrieved (concat (map (drain_events d) fs)) = []"
  by (induction fs rule: tasks_of.induct)
     (auto simp: retrieved_append async_task_events split: option.splits)

lemma actions_drain:
  "filter task_action (concat (map (drain_events d) fs)) = concat (map (run_actions d) fs)"
  by (induction fs rule: tasks_of.induct)
     (auto simp: async_task_events split: option.splits)

lemma drain_events_drain: "list_all drain_event (concat (map (drain_events d) fs))"
  by (induction fs rule: tasks_of.induct)
     (auto simp: async_task_events split: option.splits)

lemma length_tasks_of: "length (tasks_of fs) = length (filter valid fs)"
  by (induction fs rule: tasks_of.induct) (auto simp: valid_def)

lemma drain_invalid:
  "list_all (\<lambda>f. \<not> valid f) fs \<Longrightarrow>
     list_all (finishes d) fs \<and> concat (map (drain_events d) fs) = []"
  by (induction fs rule: tasks_of.induct) (auto simp: valid_def)

lemma process_results_pred_eq:
  "process_results_pred d f tr =
     Some (\<not> in_flight f, (case f of Ready t \<Rightarrow> Invalid | _ \<Rightarrow> f),
           tr @ map FutureGet (ready_tasks [f]))"
  by (cases f) (simp_all add: process_results_pred_def valid_def)

lemma remove_if_process_results:
  "remove_if (process_results_pred d) fs tr =
     Some (filter in_flight fs, tr @ map FutureGet (ready_tasks fs))"
proof (induction fs arbitrary: tr)
  case Nil
  show ?case by simp
next
  case (Cons f fs)
  then show ?case
    by (cases f) (simp_all add: process_results_pred_eq)
qed

lemma terminate_mixed: "terminate describe_ok mixed = Some (True, mixed_done)"
  by (simp add: terminate_def mixed_def mixed_done_def cam1_def describe_ok_def Let_def
        emit_def terminate_pred_def valid_def async_task_def)

subsection \<open>The address parser\<close>

lemma of_char_digit_char: "n < 10 \<Longrightarrow> (of_char (digit_char n) :: nat) = 48 + n"
  by (simp add: digit_char_def)

lemma colon_rejected:
  "CHR '':'' \<in> set src \<Longrightarrow> \<not> inet_pton4_loop saw_digit octets tp src"
  by (induction src arbitrary: saw_digit octets tp) (auto simp: Let_def)

lemma loop_digit:
  "n < 10 \<Longrightarrow> inet_pton4_loop saw octets tp (digit_char n # src) =
     (if saw \<and> tp = 0 then False
      else if tp * 10 + n > 255 then False
      else if \<not> saw then
        (if octets + 1 > 4 then False else inet_pton4_loop True (octets + 1) (tp * 10 + n) src)
      else inet_pton4_loop saw octets (tp * 10 + n) src)"
  by (simp add: of_char_digit_char Let_def)

lemma loop_dot:
  "octets < 4 \<Longrightarrow>
     inet_pton4_loop True octets tp (CHR ''.'' # src) = inet_pton4_loop False octets 0 src"
  by simp

text \<open>Reading the decimal text of an octet, from the start of a field.\<close>

lemma loop_to_string:
  "n < 256 \<Longrightarrow> k < 4 \<Longrightarrow>
   inet_pton4_loop False k 0 (to_string n @ rest) = inet_pton4_loop True (Suc k) n rest"
proof (induction n arbitrary: rest rule: to_string.induct)
  case (1 n)
  show ?case
  proof (cases "n < 10")
    case True
    then show ?thesis using 1(3)
      by (subst to_string.simps) (simp add: loop_digit del: inet_pton4_loop.simps)
  next
    case False
    have d: "n mod 10 < 10" by simp
    have q: "n div 10 < 256" "n div 10 \<noteq> 0" using 1(2) False by auto
    have e: "n div 10 * 10 + n mod 10 = n" by simp
    have "inet_pton4_loop False k 0 (to_string n @ rest) =
          inet_pton4_loop False k 0 (to_string (n div 10) @ (digit_char (n mod 10) # rest))"
      using False by (subst to_string.simps) simp
    also have "\<dots> = inet_pton4_loop True (Suc k) (n div 10) (digit_char (n mod 10) # rest)"
      using 1(1)[OF False q(1) 1(3)] .
    also have "\<dots> = inet_pton4_loop True (Suc k) n rest"
      using q(2) 1(2) by (simp add: loop_digit[OF d] e del: inet_pton4_loop.simps)
    finally show ?thesis .
  qed
qed

lemma unat_octet: "unat (a :: 8 word) < 256"
  using unsigned_less[of a, where 'a = nat] by simp

lemma ipv4_text_accepted: "address_v4_from_string (ipv4_text a b c e)"
proof -
  let ?r3 = "to_string (unat e)"
  let ?r2 = "to_string (unat c) @ CHR ''.'' # ?r3"
  let ?r1 = "to_string (unat b) @ CHR ''.'' # ?r2"
  have "inet_pton4_loop False 0 0 (to_string (unat a) @ CHR ''.'' # ?r1) =
        inet_pton4_loop True 1 (unat a) (CHR ''.'' # ?r1)"
    using loop_to_string[of "unat a" 0] by (simp add: unat_octet)
  also have "\<dots> = inet_pton4_loop False 1 0 ?r1"
    by (rule loop_dot) simp
  also have "\<dots> = inet_pton4_loop True 2 (unat b) (CHR ''.'' # ?r2)"
    using loop_to_string[of "unat b" 1] by (simp add: unat_octet numeral_2_eq_2)
  also have "\<dots> = inet_pton4_loop False 2 0 ?r2"
    by (rule loop_dot) simp
  also have "\<dots> = inet_pton4_loop True 3 (unat c) (CHR ''.'' # ?r3)"
    using loop_to_string[of "unat c" 2]
    by (simp add: unat_octet numeral_3_eq_3 numeral_2_eq_2)
  also have "\<dots> = inet_pton4_loop False 3 0 ?r3"
    by (rule loop_dot) simp
  also have "\<dots> = inet_pton4_loop True 4 (unat e) []"
    using loop_to_string[of "unat e" 3 "[]"] by (simp add: unat_octet)
  also have "\<dots> = True"
    by simp
  finally show ?thesis
    by (simp add: address_v4_from_string_def ipv4_text_def)
qed

section \<open>Properties\<close>

text \<open>
  C1, as the code has it. A call of \<open>terminate\<close> on a running client returns only if
  every task of the set that was still running comes to an end, and then all the
  actions of those tasks are done, every valid future of the set has been waited for
  exactly once, in the order of the set, and the set is empty. The result of no task is
  retrieved: the drain calls \<open>wait\<close>, never \<open>get\<close>. If every task comes to an end,
  the call returns; on an empty set it returns at once, with no wait, whatever the
  describe collaborator does.
\<close>

theorem terminate_waits_for_all:
  "(running s \<and> terminate d s = Some (r, s') \<longrightarrow>
      list_all (finishes d) (sources_res s) \<and>
      sources_res s' = [] \<and>
      (\<exists>new. trace s' = trace s @ new \<and>
         filter task_action new = concat (map (run_actions d) (sources_res s)) \<and>
         waited new = tasks_of (sources_res s) \<and>
         retrieved new = [])) \<and>
   (running s \<and> list_all (finishes d) (sources_res s) \<longrightarrow> terminate d s \<noteq> None) \<and>
   (running s \<and> sources_res s = [] \<longrightarrow>
      terminate d s =
        Some (True, s\<lparr>running := False,
                       trace := trace s @ [SetRunning False, Log Fatal, PollStop (poll s)]\<rparr>))"
proof (intro conjI impI)
  assume a: "running s \<and> terminate d s = Some (r, s')"
  then have fin: "list_all (finishes d) (sources_res s)"
    by (auto simp: terminate_running split: if_splits)
  then show "list_all (finishes d) (sources_res s)" .
  let ?new = "[SetRunning False, Log Fatal] @
              concat (map (drain_events d) (sources_res s)) @ [PollStop (poll s)]"
  from a fin terminate_running [of s d]
  have s': "s' = s\<lparr>running := False, sources_res := [], trace := trace s @ ?new\<rparr>"
    by simp
  then show "sources_res s' = []"
    by simp
  have "trace s' = trace s @ ?new"
    using s' by simp
  moreover have "filter task_action ?new = concat (map (run_actions d) (sources_res s))"
    by (simp add: actions_drain)
  moreover have "waited ?new = tasks_of (sources_res s)"
    using fin by (simp add: waited_append waited_drain)
  moreover have "retrieved ?new = []"
    by (simp add: retrieved_append retrieved_drain)
  ultimately show "\<exists>new. trace s' = trace s @ new \<and>
         filter task_action new = concat (map (run_actions d) (sources_res s)) \<and>
         waited new = tasks_of (sources_res s) \<and> retrieved new = []"
    by blast
next
  assume "running s \<and> list_all (finishes d) (sources_res s)"
  then show "terminate d s \<noteq> None"
    by (simp add: terminate_running)
next
  assume "running s \<and> sources_res s = []"
  then show "terminate d s =
        Some (True, s\<lparr>running := False,
                       trace := trace s @ [SetRunning False, Log Fatal, PollStop (poll s)]\<rparr>)"
    by (simp add: terminate_running)
qed

theorem terminate_waits_for_all_witness:
  "running mixed \<and> terminate describe_ok mixed = Some (True, mixed_done) \<and>
   list_all (finishes describe_ok) (sources_res mixed) \<and>
   (\<exists>new. trace mixed_done = trace mixed @ new \<and>
      filter task_action new = concat (map (run_actions describe_ok) (sources_res mixed)) \<and>
      waited new = tasks_of (sources_res mixed) \<and>
      retrieved new = []) \<and>
   terminate describe_ok busy \<noteq> None \<and>
   terminate describe_hangs idle =
     Some (True, idle\<lparr>running := False,
                      trace := [SetRunning False, Log Fatal, PollStop (Some 1)]\<rparr>)"
proof -
  have h1: "running mixed \<and> terminate describe_ok mixed = Some (True, mixed_done)"
    by (simp add: terminate_mixed) (simp add: mixed_def)
  have h2: "running busy \<and> list_all (finishes describe_ok) (sources_res busy)"
    by (simp add: busy_def async_task_def describe_ok_def)
  have h3: "running idle \<and> sources_res idle = []"
    by (simp add: idle_def)
  show ?thesis
    using h1 h2 h3
      terminate_waits_for_all [of mixed describe_ok True mixed_done]
      terminate_waits_for_all [of busy describe_ok]
      terminate_waits_for_all [of idle describe_hangs]
    by (simp add: idle_def)
qed

text \<open>
  C1 as stated fails: with one task in flight, \<open>terminate\<close> waits for the task and
  erases its future, and the result of the task is retrieved not once but never.
\<close>

theorem terminate_retrieves_counterexample:
  "terminate describe_ok busy =
     Some (True,
       \<lparr>running = False, poll = Some 1, client = Some 2, sources_res = [],
        trace = [SetRunning False, Log Fatal,
                 Describe ''/by-name/cam1'' ''10.0.0.1'' ''554'',
                 OnNewSource ''cam1'' ''local'' (),
                 FutureWait cam1, PollStop (Some 1)]\<rparr>) \<and>
   tasks_of (sources_res busy) = [cam1] \<and>
   retrieved (trace (snd (the (terminate describe_ok busy)))) = [] \<and>
   retrieved (trace (snd (the (terminate describe_ok busy)))) \<noteq> tasks_of (sources_res busy)"
  by (simp add: terminate_def busy_def cam1_def describe_ok_def Let_def emit_def
        terminate_pred_def valid_def async_task_def)

text \<open>
  C2. When the address text is not accepted by the IPv4 parser, \<open>resolve_callback\<close>
  dispatches nothing: the pending-task set is unchanged, and the only actions are the
  log lines and the release of the resolver handle. Every text with a colon, so the
  text of every IPv6 address, is not accepted; the dotted-decimal text of every IPv4
  address is accepted.
\<close>

theorem ineligible_address_not_dispatched:
  "(\<not> address_v4_from_string addr \<longrightarrow>
      resolve_callback r AVAHI_RESOLVER_FOUND name type domain addr port s =
        s\<lparr>trace := trace s @ [Log Debug, Log Debug, ResolverFree r]\<rparr>) \<and>
   (CHR '':'' \<in> set addr \<longrightarrow> \<not> address_v4_from_string addr) \<and>
   address_v4_from_string (ipv4_text a b c e)"
proof (intro conjI impI)
  assume "\<not> address_v4_from_string addr"
  then show "resolve_callback r AVAHI_RESOLVER_FOUND name type domain addr port s =
        s\<lparr>trace := trace s @ [Log Debug, Log Debug, ResolverFree r]\<rparr>"
    by (simp add: resolve_callback_def Let_def emit_def)
next
  assume "CHR '':'' \<in> set addr"
  then show "\<not> address_v4_from_string addr"
    by (simp add: address_v4_from_string_def colon_rejected)
next
  show "address_v4_from_string (ipv4_text a b c e)"
    by (rule ipv4_text_accepted)
qed

theorem ineligible_address_not_dispatched_witness:
  "CHR '':'' \<in> set ''fe80::1'' \<and> \<not> address_v4_from_string ''fe80::1'' \<and>
   resolve_callback 7 AVAHI_RESOLVER_FOUND ''cam1'' ''_rtsp._tcp'' ''local'' ''fe80::1'' 554 idle =
     idle\<lparr>trace := [Log Debug, Log Debug, ResolverFree 7]\<rparr> \<and>
   address_v4_from_string (ipv4_text 10 0 0 1)"
proof -
  have h: "CHR '':'' \<in> set ''fe80::1''"
    by simp
  note t = ineligible_address_not_dispatched
    [of "''fe80::1''" 7 "''cam1''" "''_rtsp._tcp''" "''local''" 554 idle 10 0 0 1]
  from t h have n: "\<not> address_v4_from_string ''fe80::1''"
    by blast
  with t have "resolve_callback 7 AVAHI_RESOLVER_FOUND ''cam1'' ''_rtsp._tcp'' ''local''
      ''fe80::1'' 554 idle = idle\<lparr>trace := trace idle @ [Log Debug, Log Debug, ResolverFree 7]\<rparr>"
    by blast
  then show ?thesis
    using h n t by (simp add: idle_def)
qed

text \<open>
  C3. For an eligible address \<open>resolve_callback\<close> appends one task to the set, with the
  name, the domain, the address and the decimal text of the port. A run of that task
  calls describe once, on the path \<open>/by-name/\<close> followed by the name, at that address
  and port; when describe succeeds the task then calls \<open>on_new_rtsp_source\<close> once,
  with the name, the domain and the description, and when it fails the task does nothing
  more. From a running client with an empty set, the dispatch followed by
  \<open>terminate\<close> has exactly these actions, so there is no second attempt.
\<close>

theorem dispatched_task_describes:
  "address_v4_from_string addr \<Longrightarrow>
   d (''/by-name/'' @ name) addr (to_string (unat port)) = Some (ok, desc) \<Longrightarrow>
     sources_res (resolve_callback r AVAHI_RESOLVER_FOUND name type domain addr port s) =
       sources_res s @ [Pending (Task name domain addr (to_string (unat port)))] \<and>
     async_task d (Task name domain addr (to_string (unat port))) =
       Some (Describe (''/by-name/'' @ name) addr (to_string (unat port)) #
             (if ok then [OnNewSource name domain desc] else [])) \<and>
     (running s \<and> sources_res s = [] \<longrightarrow>
        terminate d (resolve_callback r AVAHI_RESOLVER_FOUND name type domain addr port s) =
          Some (True,
            s\<lparr>running := False,
              trace := trace s @
                [Log Debug, Log Debug, ResolverFree r, SetRunning False, Log Fatal,
                 Describe (''/by-name/'' @ name) addr (to_string (unat port))] @
                (if ok then [OnNewSource name domain desc] else []) @
                [FutureWait (Task name domain addr (to_string (unat port))),
                 PollStop (poll s)]\<rparr>))"
  by (simp add: resolve_callback_def Let_def emit_def async_task_def terminate_running)

theorem dispatched_task_describes_witness:
  "address_v4_from_string ''10.0.0.1'' \<and>
   describe_ok ''/by-name/cam1'' ''10.0.0.1'' ''554'' = Some (True, ()) \<and>
   describe_fail ''/by-name/cam1'' ''10.0.0.1'' ''554'' = Some (False, ()) \<and>
   sources_res (resolve_callback 7 AVAHI_RESOLVER_FOUND ''cam1'' ''_rtsp._tcp'' ''local''
       ''10.0.0.1'' 554 idle) = [Pending cam1] \<and>
   async_task describe_ok cam1 =
     Some [Describe ''/by-name/cam1'' ''10.0.0.1'' ''554'', OnNewSource ''cam1'' ''local'' ()] \<and>
   async_task describe_fail cam1 = Some [Describe ''/by-name/cam1'' ''10.0.0.1'' ''554''] \<and>
   terminate describe_fail
     (resolve_callback 7 AVAHI_RESOLVER_FOUND ''cam1'' ''_rtsp._tcp'' ''local''
        ''10.0.0.1'' 554 idle) =
     Some (True,
       idle\<lparr>running := False,
            trace := [Log Debug, Log Debug, ResolverFree 7, SetRunning False, Log Fatal,
                      Describe ''/by-name/cam1'' ''10.0.0.1'' ''554'',
                      FutureWait cam1, PollStop (Some 1)]\<rparr>)"
proof -
  have p: "to_string 554 = ''554''"
    by code_simp
  have h: "address_v4_from_string ''10.0.0.1''"
    by (simp add: address_v4_from_string_def)
  have ok: "describe_ok (''/by-name/'' @ ''cam1'') ''10.0.0.1'' (to_string (unat (554 :: 16 word))) =
            Some (True, ())"
    by (simp add: describe_ok_def)
  have fl: "describe_fail (''/by-name/'' @ ''cam1'') ''10.0.0.1'' (to_string (unat (554 :: 16 word))) =
            Some (False, ())"
    by (simp add: describe_fail_def)
  have i: "running idle \<and> sources_res idle = []"
    by (simp add: idle_def)
  show ?thesis
    using h i
      dispatched_task_describes
        [where d = describe_ok and name = "''cam1''" and port = 554 and r = 7
           and type = "''_rtsp._tcp''" and domain = "''local''" and s = idle, OF h ok]
      dispatched_task_describes
        [where d = describe_fail and name = "''cam1''" and port = 554 and r = 7
           and type = "''_rtsp._tcp''" and domain = "''local''" and s = idle, OF h fl]
    by (simp add: p cam1_def describe_ok_def describe_fail_def idle_def)
qed

text \<open>
  C4. \<open>process_results\<close> returns whatever the describe collaborator does, so it never
  blocks. It erases exactly the futures that are invalid or whose task has finished and
  keeps every future whose task is still in flight, unchanged and in the same order; its
  only actions are one \<open>get\<close> on each finished task.
\<close>

theorem process_results_reaps:
  "process_results d s =
     Some (s\<lparr>sources_res := filter in_flight (sources_res s),
              trace := trace s @ map FutureGet (ready_tasks (sources_res s))\<rparr>)"
  by (simp add: process_results_def remove_if_process_results)

text \<open>
  C5. \<open>init\<close> is idempotent: called on a client that is already running it returns
  success and leaves the whole state, trace included, as it was; so a second call right
  after a successful first one is a no-op that returns success.
\<close>

theorem init_idempotent:
  "(running s \<longrightarrow> init p2 c2 s = (True, s)) \<and>
   (fst (init p1 c1 s) \<longrightarrow> init p2 c2 (snd (init p1 c1 s)) = (True, snd (init p1 c1 s)))"
  by (auto simp: init_def Let_def emit_def poll_reset_def client_reset_def
           split: option.splits if_splits)

theorem init_idempotent_witness:
  "running idle \<and> init (Some 3) None idle = (True, idle) \<and>
   fst (init (Some 1) (Some 2) fresh) \<and>
   init (Some 3) None (snd (init (Some 1) (Some 2) fresh)) =
     (True, snd (init (Some 1) (Some 2) fresh)) \<and>
   snd (init (Some 1) (Some 2) fresh) =
     \<lparr>running = True, poll = Some 1, client = Some 2, sources_res = [],
      trace = [PollStart (Some 1), SetRunning True]\<rparr>"
proof -
  have h1: "running idle"
    by (simp add: idle_def)
  have h2: "fst (init (Some 1) (Some 2) fresh)"
    by (simp add: init_def fresh_def Let_def emit_def poll_reset_def client_reset_def)
  have e: "snd (init (Some 1) (Some 2) fresh) =
     \<lparr>running = True, poll = Some 1, client = Some 2, sources_res = [],
      trace = [PollStart (Some 1), SetRunning True]\<rparr>"
    by (simp add: init_def fresh_def Let_def emit_def poll_reset_def client_reset_def)
  have "init (Some 3) None idle = (True, idle)"
    using h1 init_idempotent [of idle "Some 3" None] by blast
  moreover have "init (Some 3) None (snd (init (Some 1) (Some 2) fresh)) =
     (True, snd (init (Some 1) (Some 2) fresh))"
    using h2 init_idempotent [of fresh "Some 3" None "Some 1" "Some 2"] by blast
  ultimately show ?thesis
    using h1 h2 e by blast
qed

text \<open>
  C6, as the code has it. The actions of \<open>terminate\<close> on a running client come in this
  order: first the run-state is set to false, then (after a log line) come the waits of
  the drain, one for each valid future, with the last actions of the tasks waited for,
  and last of all the event loop is stopped. Nothing is freed: \<open>poll_\<close> and
  \<open>client_\<close> hold after the call what they held before.
\<close>

theorem terminate_order:
  "running s \<Longrightarrow> terminate d s = Some (r, s') \<Longrightarrow>
     (\<exists>drain. trace s' = trace s @ [SetRunning False, Log Fatal] @ drain @ [PollStop (poll s)] \<and>
        list_all drain_event drain \<and> waited drain = tasks_of (sources_res s)) \<and>
     \<not> running s' \<and> sources_res s' = [] \<and> poll s' = poll s \<and> client s' = client s"
proof -
  assume run: "running s" and t: "terminate d s = Some (r, s')"
  then have fin: "list_all (finishes d) (sources_res s)"
    by (auto simp: terminate_running split: if_splits)
  let ?drain = "concat (map (drain_events d) (sources_res s))"
  from run t fin terminate_running [of s d]
  have s': "s' = s\<lparr>running := False, sources_res := [],
                    trace := trace s @ [SetRunning False, Log Fatal] @ ?drain @ [PollStop (poll s)]\<rparr>"
    by simp
  have "list_all drain_event ?drain"
    by (rule drain_events_drain)
  moreover have "waited ?drain = tasks_of (sources_res s)"
    using fin by (rule waited_drain)
  moreover have "trace s' = trace s @ [SetRunning False, Log Fatal] @ ?drain @ [PollStop (poll s)]"
    using s' by simp
  ultimately have "\<exists>drain. trace s' = trace s @ [SetRunning False, Log Fatal] @ drain @ [PollStop (poll s)] \<and>
        list_all drain_event drain \<and> waited drain = tasks_of (sources_res s)"
    by blast
  then show ?thesis
    using s' by simp
qed

theorem terminate_order_witness:
  "running mixed \<and> terminate describe_ok mixed = Some (True, mixed_done) \<and>
   (\<exists>drain. trace mixed_done =
        trace mixed @ [SetRunning False, Log Fatal] @ drain @ [PollStop (poll mixed)] \<and>
      list_all drain_event drain \<and> waited drain = tasks_of (sources_res mixed)) \<and>
   poll mixed_done = poll mixed \<and> client mixed_done = client mixed"
proof -
  have h1: "running mixed"
    by (simp add: mixed_def)
  have h2: "terminate describe_ok mixed = Some (True, mixed_done)"
    by (rule terminate_mixed)
  show ?thesis
    using h1 h2 terminate_order [OF h1 h2] by simp
qed

text \<open>
  C6 as stated fails: \<open>terminate\<close> stops the event loop and releases nothing. After the
  call the poll object is still held by \<open>poll_\<close>, and it has not been freed.
\<close>

theorem terminate_releases_counterexample:
  "terminate describe_ok idle =
     Some (True,
       \<lparr>running = False, poll = Some 1, client = Some 2, sources_res = [],
        trace = [SetRunning False, Log Fatal, PollStop (Some 1)]\<rparr>) \<and>
   poll (snd (the (terminate describe_ok idle))) = Some 1 \<and>
   PollFree 1 \<notin> set (trace (snd (the (terminate describe_ok idle))))"
  by (simp add: terminate_def idle_def Let_def emit_def)

text \<open>
  C7, as the code has it. If the poll object or the client handle cannot be created,
  \<open>init\<close> on a client that is not running returns failure, the run-state stays false
  and the event loop is not started. A poll object created before the client handle
  failed is not released by \<open>init\<close>: it stays owned by \<open>poll_\<close>. All that \<open>init\<close>
  frees is what the two handles held before the call.
\<close>

theorem init_failure:
  "\<not> running s \<Longrightarrow> poll_new = None \<or> client_new = None \<Longrightarrow>
     init poll_new client_new s =
       (False,
        s\<lparr>poll := poll_new,
          client := (if poll_new = None then client s else None),
          trace := trace s @
            (case poll s of None \<Rightarrow> [] | Some h \<Rightarrow> [PollFree h]) @
            (if poll_new = None then []
             else (case client s of None \<Rightarrow> [] | Some h \<Rightarrow> [ClientFree h])) @
            [Log Fatal]\<rparr>) \<and>
     \<not> running (snd (init poll_new client_new s)) \<and>
     poll (snd (init poll_new client_new s)) = poll_new"
  by (auto simp: init_def Let_def emit_def poll_reset_def client_reset_def
           split: option.splits)

theorem init_failure_witness:
  "\<not> running fresh \<and>
   init None (Some 2) fresh = (False, fresh\<lparr>trace := [Log Fatal]\<rparr>) \<and>
   init (Some 1) None fresh = (False, fresh\<lparr>poll := Some 1, trace := [Log Fatal]\<rparr>) \<and>
   poll (snd (init (Some 1) None fresh)) = Some 1"
proof -
  have h: "\<not> running fresh"
    by (simp add: fresh_def)
  have a: "(None :: handle option) = None \<or> Some (2 :: handle) = None"
    by simp
  have b: "Some (1 :: handle) = None \<or> (None :: handle option) = None"
    by simp
  show ?thesis
    using h init_failure [OF h a] init_failure [OF h b] by (simp add: fresh_def)
qed

text \<open>
  C7 as stated fails: when the poll object is created and the client handle is not,
  \<open>init\<close> returns failure with the poll object still held and not freed.
\<close>

theorem init_failure_counterexample:
  "init (Some 1) None fresh =
     (False, \<lparr>running = False, poll = Some 1, client = None, sources_res = [],
              trace = [Log Fatal]\<rparr>) \<and>
   PollFree 1 \<notin> set (trace (snd (init (Some 1) None fresh)))"
  by (simp add: init_def fresh_def Let_def emit_def poll_reset_def client_reset_def)

text \<open>
  C8. \<open>terminate\<close> on a client that is not running returns at once, whatever the
  describe collaborator does, and leaves the whole state as it was: the pending-task
  set, the handles and the trace (no call on the event loop, no wait).
\<close>

theorem terminate_not_running:
  "\<not> running s \<Longrightarrow> terminate d s = Some (True, s)"
  by (simp add: terminate_def)

theorem terminate_not_running_witness:
  "\<not> running fresh \<and> terminate describe_hangs fresh = Some (True, fresh) \<and>
   terminate describe_hangs (fresh\<lparr>sources_res := [Pending cam1]\<rparr>) =
     Some (True, fresh\<lparr>sources_res := [Pending cam1]\<rparr>)"
proof -
  have h: "\<not> running fresh"
    by (simp add: fresh_def)
  have h': "\<not> running (fresh\<lparr>sources_res := [Pending cam1]\<rparr>)"
    by (simp add: fresh_def)
  show ?thesis
    using h terminate_not_running [OF h, of describe_hangs]
      terminate_not_running [OF h', of describe_hangs]
    by simp
qed

text \<open>
  C9. Whatever the event, the address and the outcome of the dispatch, the actions of
  one call of \<open>resolve_callback\<close> end with the release of the resolver handle, and no
  release comes before it: the handle is released exactly once, at the end. On a
  failed resolution the call writes one log line and releases the handle, and changes
  nothing else.
\<close>

theorem resolver_released_once:
  "(\<exists>new. trace (resolve_callback r ev name type domain addr port s) =
            trace s @ new @ [ResolverFree r] \<and>
      released new = []) \<and>
   resolve_callback r AVAHI_RESOLVER_FAILURE name type domain addr port s =
     s\<lparr>trace := trace s @ [Log Error, ResolverFree r]\<rparr>"
  by (cases ev) (auto simp: resolve_callback_def Let_def emit_def)

text \<open>
  C10. When \<open>terminate\<close> returns from a call made on a running client, the pending-task
  set is empty and the client is not running. Every entry is erased; a wait is made for
  the valid futures only, so a set of invalid futures is discarded without any wait,
  whatever the describe collaborator does.
\<close>

theorem terminate_leaves_set_empty:
  "(running s \<and> terminate d s = Some (r, s') \<longrightarrow>
      r \<and> sources_res s' = [] \<and> \<not> running s' \<and>
      (\<exists>new. trace s' = trace s @ new \<and>
         length (waited new) = length (filter valid (sources_res s)))) \<and>
   (running s \<and> list_all (\<lambda>f. \<not> valid f) (sources_res s) \<longrightarrow>
      terminate d s =
        Some (True, s\<lparr>running := False, sources_res := [],
                       trace := trace s @ [SetRunning False, Log Fatal, PollStop (poll s)]\<rparr>))"
proof (intro conjI impI)
  assume a: "running s \<and> terminate d s = Some (r, s')"
  then have fin: "list_all (finishes d) (sources_res s)"
    by (auto simp: terminate_running split: if_splits)
  let ?new = "[SetRunning False, Log Fatal] @
              concat (map (drain_events d) (sources_res s)) @ [PollStop (poll s)]"
  from a fin terminate_running [of s d]
  have s': "r \<and> s' = s\<lparr>running := False, sources_res := [], trace := trace s @ ?new\<rparr>"
    by simp
  then show r and "sources_res s' = []" and "\<not> running s'"
    by simp_all
  have "trace s' = trace s @ ?new"
    using s' by simp
  moreover have "length (waited ?new) = length (filter valid (sources_res s))"
    using fin by (simp add: waited_append waited_drain length_tasks_of)
  ultimately show "\<exists>new. trace s' = trace s @ new \<and>
         length (waited new) = length (filter valid (sources_res s))"
    by blast
next
  assume "running s \<and> list_all (\<lambda>f. \<not> valid f) (sources_res s)"
  then show "terminate d s =
        Some (True, s\<lparr>running := False, sources_res := [],
                       trace := trace s @ [SetRunning False, Log Fatal, PollStop (poll s)]\<rparr>)"
    using drain_invalid [of "sources_res s" d] by (simp add: terminate_running)
qed

theorem terminate_leaves_set_empty_witness:
  "running mixed \<and> terminate describe_ok mixed = Some (True, mixed_done) \<and>
   sources_res mixed_done = [] \<and> \<not> running mixed_done \<and>
   (\<exists>new. trace mixed_done = trace mixed @ new \<and>
      length (waited new) = length (filter valid (sources_res mixed))) \<and>
   terminate describe_hangs (idle\<lparr>sources_res := [Invalid, Invalid]\<rparr>) =
     Some (True, idle\<lparr>running := False,
                      trace := [SetRunning False, Log Fatal, PollStop (Some 1)]\<rparr>)"
proof -
  have h: "running mixed \<and> terminate describe_ok mixed = Some (True, mixed_done)"
    by (simp add: terminate_mixed) (simp add: mixed_def)
  have h': "running (idle\<lparr>sources_res := [Invalid, Invalid]\<rparr>) \<and>
            list_all (\<lambda>f. \<not> valid f) (sources_res (idle\<lparr>sources_res := [Invalid, Invalid]\<rparr>))"
    by (simp add: idle_def valid_def)
  show ?thesis
    using h h'
      terminate_leaves_set_empty [of mixed describe_ok True mixed_done]
      terminate_leaves_set_empty
        [of "idle\<lparr>sources_res := [Invalid, Invalid]\<rparr>" describe_hangs]
    by (simp add: idle_def)
qed

end
